theory Spec2Isabelle
  imports Main "HOL-Library.Sublist" "HOL-Library.AList"
begin

section \<open>The extension manager of CMake Tools: data model\<close>

text \<open>
  The embedded code is the class \<^verbatim>\<open>ExtensionManager\<close> (the extension's startup file).
  An asynchronous method is embedded as a state transformer that runs to completion:
  the interleaving of other tasks at an \<^verbatim>\<open>await\<close> is not part of the model.
\<close>

subsection \<open>JavaScript values\<close>

text \<open>
  The operations dispatched by the manager return \<^verbatim>\<open>Thenable<any>\<close>: exit codes, handles
  (a debug session, a terminal), \<^verbatim>\<open>null\<close> or \<^verbatim>\<open>undefined\<close>.
\<close>

datatype jsval = Undefined | Null | Bool bool | Num int | Str string | Obj nat

text \<open>The test of \<^verbatim>\<open>if (retc)\<close>: JavaScript's ToBoolean.\<close>

fun truthy :: "jsval \<Rightarrow> bool" where
  "truthy Undefined = False"
| "truthy Null = False"
| "truthy (Bool b) = b"
| "truthy (Num n) = (n \<noteq> 0)"
| "truthy (Str s) = (s \<noteq> [])"
| "truthy (Obj h) = True"

subsection \<open>Folders, kits, driver operations\<close>

text \<open>A workspace folder is identified by \<^verbatim>\<open>uri.fsPath\<close>.\<close>

type_synonym folder = string

datatype kit = Kit (kit_name: string)

text \<open>The methods of a \<^verbatim>\<open>CMakeTools\<close> instance that the manager's commands call.\<close>

datatype driver_op =
    CleanConfigure
  | Configure
  | Build "string option"
  | Install
  | CTest
  | Stop
  | DebugTarget "string option"
  | LaunchTarget "string option"

text \<open>
  \<^verbatim>\<open>type CMakeToolsMapFn = (cmt: CMakeTools) => Thenable<any>\<close>, over the state \<open>'w\<close>
  of everything outside the manager (the sessions, their drivers, the disk).
\<close>

type_synonym 'w cmakeToolsMapFn = "folder \<Rightarrow> 'w \<Rightarrow> jsval \<times> 'w"

text \<open>
  The collaborators of the manager whose code is outside this file, taken as parameters:
  the getter \<^verbatim>\<open>cmt.activeKit\<close>, the kit picker \<^verbatim>\<open>kitsController.selectKit()\<close> (the name
  of the chosen kit, or nothing), the methods of \<^verbatim>\<open>CMakeTools\<close> and its \<^verbatim>\<open>asyncDispose\<close>, the environment variable
  \<^verbatim>\<open>CMT_TESTING\<close> (true when it is \<^verbatim>\<open>'1'\<close>), the editor's
  \<^verbatim>\<open>vscode.workspace.getWorkspaceFolder\<close> and \<^verbatim>\<open>WorkspaceFolder.name\<close>.
\<close>

record 'w env =
  cmt_activeKit :: "folder \<Rightarrow> 'w \<Rightarrow> kit option"
  kc_selectKit :: "folder \<Rightarrow> 'w \<Rightarrow> string option \<times> 'w"
  cmt_op :: "driver_op \<Rightarrow> 'w cmakeToolsMapFn"
  CMT_TESTING :: bool
  cmt_asyncDispose :: "folder \<Rightarrow> 'w \<Rightarrow> 'w"
  getWorkspaceFolder :: "folder list \<Rightarrow> string \<Rightarrow> folder option"
  wf_name :: "folder \<Rightarrow> string"

subsection \<open>The state of the manager\<close>

datatype notification = CodeModelChanged | TargetNameChanged | LaunchTargetNameChanged

text \<open>A \<^verbatim>\<open>vscode.Disposable\<close> returned by subscribing to a notification of a session.\<close>

record subscription =
  sub_id :: nat
  sub_folder :: folder
  sub_event :: notification

text \<open>
  Fields of \<^verbatim>\<open>ExtensionManager\<close> and the editor state it reads:
  \<^item> \<open>instances\<close>, \<open>activeFolder\<close>: the folder controller \<^verbatim>\<open>_folders\<close> (keys in iteration
    order) and its \<^verbatim>\<open>activeFolder\<close>;
  \<^item> \<open>workspaceFolders\<close>: \<^verbatim>\<open>vscode.workspace.workspaceFolders\<close> (\<open>None\<close> is \<^verbatim>\<open>undefined\<close>);
  \<^item> \<open>autoSelectActiveFolder\<close>: \<^verbatim>\<open>_workspaceConfig.autoSelectActiveFolder\<close>;
  \<^item> \<open>persistedActiveFolder\<close>: the key \<^verbatim>\<open>'activeFolder'\<close> of \<^verbatim>\<open>workspaceState\<close>;
  \<^item> \<open>codeModelUpdateSubs\<close>: the map \<^verbatim>\<open>_codeModelUpdateSubs\<close>;
  \<^item> \<open>listeners\<close>: the subscriptions the manager made and on which \<^verbatim>\<open>dispose()\<close> has not
    been called; \<open>nextSub\<close> numbers them;
  \<^item> \<open>editorSub\<close>: whether \<^verbatim>\<open>_onDidChangeActiveTextEditorSub\<close> is a real subscription;
  \<^item> \<open>statusFolderName\<close>, \<open>statusKitName\<close>, \<open>statusVisible\<close>, \<open>statusSubs\<close>: the status bar
    and the session its items are subscribed to;
  \<^item> \<open>outline\<close>: the folders of \<^verbatim>\<open>_projectOutlineProvider\<close>;
  \<^item> \<open>postOpen\<close>: the \<^verbatim>\<open>_postWorkspaceOpen\<close> tasks handed to rollbar, not awaited;
  \<^item> \<open>errors\<close>: the messages given to \<^verbatim>\<open>rollbar.error\<close>;
  \<^item> \<open>invoked\<close>: a log of each call of a dispatched operation, with its result;
  \<^item> \<open>world\<close>: the state outside the manager.
\<close>

record 'w manager =
  instances :: "folder list"
  activeFolder :: "folder option"
  workspaceFolders :: "folder list option"
  autoSelectActiveFolder :: bool
  persistedActiveFolder :: "string option"
  codeModelUpdateSubs :: "(folder \<times> subscription list) list"
  listeners :: "subscription list"
  nextSub :: nat
  editorSub :: bool
  statusFolderName :: string
  statusKitName :: string
  statusVisible :: bool
  statusSubs :: "folder option"
  outline :: "folder list"
  postOpen :: "folder list"
  errors :: "string list"
  invoked :: "(folder \<times> jsval) list"
  world :: 'w

section \<open>The folder controller\<close>

text \<open>
  Modelled from the spec: the class \<^verbatim>\<open>CMakeToolsFolderController\<close> (the session registry
  and the holder of the active folder) is imported by the manager and its code is not
  part of the sources. The spec gives \<open>get(folderKey) -> Session | absent\<close>.
\<close>

definition get :: "'w manager \<Rightarrow> folder option \<Rightarrow> folder option" where
  "get s folder =
     (case folder of
        None \<Rightarrow> None
      | Some f \<Rightarrow> if f \<in> set (instances s) then Some f else None)"

section \<open>Kit selection\<close>

text \<open>\<^verbatim>\<open>_checkFolderArgs\<close>\<close>

definition checkFolderArgs :: "'w manager \<Rightarrow> folder option \<Rightarrow> folder option" where
  "checkFolderArgs s folder =
     (case folder of
        Some f \<Rightarrow> get s (Some f)
      | None \<Rightarrow> activeFolder s)"

text \<open>
  \<^verbatim>\<open>selectKit\<close>: nothing is asked in test mode or without a folder; otherwise the picker of
  the folder runs, the status bar shows the kit of the active folder if it has one, and the
  result is whether a (non-empty) kit name came back.
\<close>

definition selectKit :: "'w env \<Rightarrow> folder option \<Rightarrow> 'w manager \<Rightarrow> bool \<times> 'w manager" where
  "selectKit E folder s =
     (if CMT_TESTING E then (False, s)
      else case checkFolderArgs s folder of
        None \<Rightarrow> (False, s)
      | Some cmtFolder \<Rightarrow>
          (case kc_selectKit E cmtFolder (world s) of
             (kitName, w) \<Rightarrow>
               let s1 = s\<lparr>world := w\<rparr>;
                   s2 = (case activeFolder s1 of
                           None \<Rightarrow> s1
                         | Some a \<Rightarrow>
                             (case cmt_activeKit E a w of
                                None \<Rightarrow> s1
                              | Some k \<Rightarrow> s1\<lparr>statusKitName := kit_name k\<rparr>))
               in (case kitName of None \<Rightarrow> False | Some n \<Rightarrow> n \<noteq> [], s2)))"

text \<open>
  \<^verbatim>\<open>_ensureActiveKit\<close>: false without a session; true when the session has a kit;
  otherwise the user is asked, through \<^verbatim>\<open>selectKit()\<close> without a folder argument.
\<close>

definition ensureActiveKit :: "'w env \<Rightarrow> folder option \<Rightarrow> 'w manager \<Rightarrow> bool \<times> 'w manager" where
  "ensureActiveKit E cmt s =
     (case (case cmt of None \<Rightarrow> activeFolder s | Some c \<Rightarrow> Some c) of
        None \<Rightarrow> (False, s)
      | Some c \<Rightarrow>
          if cmt_activeKit E c (world s) \<noteq> None then (True, s)
          else
            (case selectKit E None s of
               (did_choose_kit, s1) \<Rightarrow>
                 if \<not> did_choose_kit \<and> cmt_activeKit E c (world s1) = None then (False, s1)
                 else (cmt_activeKit E c (world s1) \<noteq> None, s1)))"

section \<open>The command dispatcher\<close>

text \<open>A call \<^verbatim>\<open>await fn(cmt)\<close>, entered in the log with its result.\<close>

definition invoke :: "'w cmakeToolsMapFn \<Rightarrow> folder \<Rightarrow> 'w manager \<Rightarrow> jsval \<times> 'w manager" where
  "invoke fn f s =
     (case fn f (world s) of
        (retc, w) \<Rightarrow> (retc, s\<lparr>world := w, invoked := invoked s @ [(f, retc)]\<rparr>))"

text \<open>The two call signatures of \<^verbatim>\<open>mapCMakeTools\<close>: \<open>(fn)\<close> and \<open>(cmt | undefined, fn)\<close>.\<close>

datatype 'w mapArgs =
    OnAll "'w cmakeToolsMapFn"
  | OnOne "folder option" "'w cmakeToolsMapFn"

text \<open>The loop \<^verbatim>\<open>for (const folder of this._folders)\<close> of \<^verbatim>\<open>mapCMakeTools\<close>.\<close>

fun mapAllLoop :: "'w env \<Rightarrow> 'w cmakeToolsMapFn \<Rightarrow> folder list \<Rightarrow> 'w manager \<Rightarrow> jsval \<times> 'w manager" where
  "mapAllLoop E fn [] s = (Num 0, s)"
| "mapAllLoop E fn (folder # rest) s =
     (case ensureActiveKit E (Some folder) s of
        (True, s1) \<Rightarrow>
          (case invoke fn folder s1 of
             (retc, s2) \<Rightarrow> if truthy retc then (retc, s2) else mapAllLoop E fn rest s2)
      | (False, s1) \<Rightarrow> (Num (- 1), s1))"

definition mapCMakeTools :: "'w env \<Rightarrow> 'w mapArgs \<Rightarrow> 'w manager \<Rightarrow> jsval \<times> 'w manager" where
  "mapCMakeTools E args s =
     (case args of
        OnOne None fn \<Rightarrow>
          (case activeFolder s of
             Some af \<Rightarrow>
               (case ensureActiveKit E (Some af) s of
                  (True, s1) \<Rightarrow> invoke fn af s1
                | (False, s1) \<Rightarrow> (Num (- 1), s1))
           | None \<Rightarrow> (Num 0, s\<lparr>errors := errors s @ [''No active foler.'']\<rparr>))
      | OnOne (Some cmt) fn \<Rightarrow>
          (case ensureActiveKit E (Some cmt) s of
             (True, s1) \<Rightarrow> invoke fn cmt s1
           | (False, s1) \<Rightarrow> (Num (- 1), s1))
      | OnAll fn \<Rightarrow> mapAllLoop E fn (instances s) s)"

text \<open>
  \<^verbatim>\<open>mapCMakeToolsFolder\<close> starts \<^verbatim>\<open>mapCMakeTools\<close> on the session of the folder and neither
  awaits nor returns its promise: the caller receives \<^verbatim>\<open>undefined\<close>. The dispatch that
  was started goes on by itself; its effects are in the state that is returned.
\<close>

definition mapCMakeToolsFolder ::
    "'w env \<Rightarrow> folder option \<Rightarrow> 'w cmakeToolsMapFn \<Rightarrow> 'w manager \<Rightarrow> jsval \<times> 'w manager" where
  "mapCMakeToolsFolder E folder fn s =
     (case mapCMakeTools E (OnOne (get s folder) fn) s of
        (discarded, s1) \<Rightarrow> (Undefined, s1))"

section \<open>The commands\<close>

definition cleanConfigure :: "'w env \<Rightarrow> folder option \<Rightarrow> 'w manager \<Rightarrow> jsval \<times> 'w manager" where
  "cleanConfigure E folder = mapCMakeToolsFolder E folder (cmt_op E CleanConfigure)"

definition cleanConfigureAll :: "'w env \<Rightarrow> 'w manager \<Rightarrow> jsval \<times> 'w manager" where
  "cleanConfigureAll E = mapCMakeTools E (OnAll (cmt_op E CleanConfigure))"

definition configure :: "'w env \<Rightarrow> folder option \<Rightarrow> 'w manager \<Rightarrow> jsval \<times> 'w manager" where
  "configure E folder = mapCMakeToolsFolder E folder (cmt_op E Configure)"

definition configureAll :: "'w env \<Rightarrow> 'w manager \<Rightarrow> jsval \<times> 'w manager" where
  "configureAll E = mapCMakeTools E (OnAll (cmt_op E Configure))"

definition build :: "'w env \<Rightarrow> folder option \<Rightarrow> string option \<Rightarrow> 'w manager \<Rightarrow> jsval \<times> 'w manager" where
  "build E folder name = mapCMakeToolsFolder E folder (cmt_op E (Build name))"

definition buildAll :: "'w env \<Rightarrow> string option \<Rightarrow> 'w manager \<Rightarrow> jsval \<times> 'w manager" where
  "buildAll E name = mapCMakeTools E (OnAll (cmt_op E (Build name)))"

definition install :: "'w env \<Rightarrow> folder option \<Rightarrow> 'w manager \<Rightarrow> jsval \<times> 'w manager" where
  "install E folder = mapCMakeToolsFolder E folder (cmt_op E Install)"

definition installAll :: "'w env \<Rightarrow> 'w manager \<Rightarrow> jsval \<times> 'w manager" where
  "installAll E = mapCMakeTools E (OnAll (cmt_op E Install))"

definition clean :: "'w env \<Rightarrow> folder option \<Rightarrow> 'w manager \<Rightarrow> jsval \<times> 'w manager" where
  "clean E folder = build E folder (Some ''clean'')"

definition cleanAll :: "'w env \<Rightarrow> 'w manager \<Rightarrow> jsval \<times> 'w manager" where
  "cleanAll E = buildAll E (Some ''clean'')"

definition cleanRebuild :: "'w env \<Rightarrow> folder option \<Rightarrow> 'w manager \<Rightarrow> jsval \<times> 'w manager" where
  "cleanRebuild E folder s =
     (case build E folder (Some ''clean'') s of
        (retc, s1) \<Rightarrow> if truthy retc then (retc, s1) else build E folder None s1)"

definition cleanRebuildAll :: "'w env \<Rightarrow> 'w manager \<Rightarrow> jsval \<times> 'w manager" where
  "cleanRebuildAll E s =
     (case buildAll E (Some ''clean'') s of
        (retc, s1) \<Rightarrow> if truthy retc then (retc, s1) else buildAll E None s1)"

definition ctest :: "'w env \<Rightarrow> folder option \<Rightarrow> 'w manager \<Rightarrow> jsval \<times> 'w manager" where
  "ctest E folder = mapCMakeToolsFolder E folder (cmt_op E CTest)"

definition ctestAll :: "'w env \<Rightarrow> 'w manager \<Rightarrow> jsval \<times> 'w manager" where
  "ctestAll E = mapCMakeTools E (OnAll (cmt_op E CTest))"

definition stop :: "'w env \<Rightarrow> folder option \<Rightarrow> 'w manager \<Rightarrow> jsval \<times> 'w manager" where
  "stop E folder = mapCMakeToolsFolder E folder (cmt_op E Stop)"

definition stopAll :: "'w env \<Rightarrow> 'w manager \<Rightarrow> jsval \<times> 'w manager" where
  "stopAll E = mapCMakeTools E (OnAll (cmt_op E Stop))"

definition debugTarget :: "'w env \<Rightarrow> folder option \<Rightarrow> string option \<Rightarrow> 'w manager \<Rightarrow> jsval \<times> 'w manager" where
  "debugTarget E folder name = mapCMakeToolsFolder E folder (cmt_op E (DebugTarget name))"

definition launchTarget :: "'w env \<Rightarrow> folder option \<Rightarrow> string option \<Rightarrow> 'w manager \<Rightarrow> jsval \<times> 'w manager" where
  "launchTarget E folder name = mapCMakeToolsFolder E folder (cmt_op E (LaunchTarget name))"

text \<open>
  The loop of \<^verbatim>\<open>debugTargetAll\<close>, with the array \<^verbatim>\<open>debugSessions\<close> as accumulator. An entry of
  the folder controller is an object, so the test \<^verbatim>\<open>if (cmtFolder)\<close> holds in every round.
  The dispatches are started one after the other, in the order of the registry, and
  \<^verbatim>\<open>Promise.all\<close> keeps the order of the array.
\<close>

fun debugTargetAllLoop ::
    "'w env \<Rightarrow> string option \<Rightarrow> folder list \<Rightarrow> jsval list \<Rightarrow> 'w manager \<Rightarrow> jsval list \<times> 'w manager" where
  "debugTargetAllLoop E name [] debugSessions s = (debugSessions, s)"
| "debugTargetAllLoop E name (cmtFolder # rest) debugSessions s =
     (case mapCMakeTools E (OnOne (Some cmtFolder) (cmt_op E (DebugTarget name))) s of
        (r, s1) \<Rightarrow> debugTargetAllLoop E name rest ((debugSessions @ [r]) @ [Null]) s1)"

definition debugTargetAll :: "'w env \<Rightarrow> string option \<Rightarrow> 'w manager \<Rightarrow> jsval list \<times> 'w manager" where
  "debugTargetAll E name s = debugTargetAllLoop E name (instances s) [] s"

text \<open>The loop of \<^verbatim>\<open>launchTargetAll\<close>, with the array \<^verbatim>\<open>terminals\<close>.\<close>

fun launchTargetAllLoop ::
    "'w env \<Rightarrow> string option \<Rightarrow> folder list \<Rightarrow> jsval list \<Rightarrow> 'w manager \<Rightarrow> jsval list \<times> 'w manager" where
  "launchTargetAllLoop E name [] terminals s = (terminals, s)"
| "launchTargetAllLoop E name (cmtFolder # rest) terminals s =
     (case mapCMakeTools E (OnOne (Some cmtFolder) (cmt_op E (LaunchTarget name))) s of
        (r, s1) \<Rightarrow> launchTargetAllLoop E name rest ((terminals @ [r]) @ [Null]) s1)"

definition launchTargetAll :: "'w env \<Rightarrow> string option \<Rightarrow> 'w manager \<Rightarrow> jsval list \<times> 'w manager" where
  "launchTargetAll E name s = launchTargetAllLoop E name (instances s) [] s"

section \<open>The active folder\<close>

text \<open>
  Modelled from the spec: \<^verbatim>\<open>CMakeToolsFolderController.setActiveFolder\<close> is missing from the
  sources. The spec gives \<open>setActive(folderKey)\<close> and an active folder that is a key of the
  registry or empty; the manager passes a workspace folder (or \<^verbatim>\<open>undefined\<close>) and reads back
  an entry of the controller, so the setter looks the folder up.
\<close>

definition folders_setActiveFolder :: "folder option \<Rightarrow> 'w manager \<Rightarrow> 'w manager" where
  "folders_setActiveFolder ws s = s\<lparr>activeFolder := get s ws\<rparr>"

text \<open>\<^verbatim>\<open>_disposeSubs\<close>: the subscriptions of the status bar items are disposed of.\<close>

definition disposeSubs :: "'w manager \<Rightarrow> 'w manager" where
  "disposeSubs s = s\<lparr>statusSubs := None\<rparr>"

text \<open>
  \<^verbatim>\<open>_setupSubscriptions\<close>: the status bar items follow the active session, or are hidden
  and given dummy subscriptions when there is none.
\<close>

definition setupSubscriptions :: "'w env \<Rightarrow> 'w manager \<Rightarrow> 'w manager" where
  "setupSubscriptions E s =
     (let s1 = disposeSubs s
      in case activeFolder s1 of
           None \<Rightarrow> s1\<lparr>statusVisible := False, statusSubs := None, statusKitName := []\<rparr>
         | Some cmt \<Rightarrow>
             s1\<lparr>statusVisible := True, statusSubs := Some cmt,
                statusKitName :=
                  (case cmt_activeKit E cmt (world s1) of None \<Rightarrow> [] | Some k \<Rightarrow> kit_name k)\<rparr>)"

text \<open>\<^verbatim>\<open>_setActiveFolder\<close>\<close>

definition setActiveFolder :: "'w env \<Rightarrow> folder option \<Rightarrow> 'w manager \<Rightarrow> 'w manager" where
  "setActiveFolder E ws s =
     (let s1 = folders_setActiveFolder ws s;
          s2 = s1\<lparr>statusFolderName := (case ws of None \<Rightarrow> [] | Some f \<Rightarrow> wf_name E f)\<rparr>;
          s3 = s2\<lparr>statusKitName :=
                    (case activeFolder s2 of
                       None \<Rightarrow> []
                     | Some a \<Rightarrow>
                         (case cmt_activeKit E a (world s2) of None \<Rightarrow> [] | Some k \<Rightarrow> kit_name k))\<rparr>
      in setupSubscriptions E s3)"

text \<open>
  \<^verbatim>\<open>_onDidChangeActiveTextEditor\<close>; the editor is given by the URI of its document,
  \<open>None\<close> when there is no editor.
\<close>

definition onDidChangeActiveTextEditor :: "'w env \<Rightarrow> string option \<Rightarrow> 'w manager \<Rightarrow> 'w manager" where
  "onDidChangeActiveTextEditor E editor s =
     (case workspaceFolders s of
        None \<Rightarrow> s
      | Some wfs \<Rightarrow>
          (let ws = (case editor of None \<Rightarrow> None | Some uri \<Rightarrow> getWorkspaceFolder E wfs uri)
           in case ws of
                None \<Rightarrow> s
              | Some w \<Rightarrow>
                  if activeFolder s = None \<or> Some w \<noteq> activeFolder s
                  then setActiveFolder E (Some w) s
                  else s))"

datatype error = TypeError | DuplicateFolder

text \<open>
  \<^verbatim>\<open>selectActiveFolder\<close>; \<open>selection\<close> is what the folder pick of the editor answers.
  Reading \<^verbatim>\<open>this._folders.activeFolder!.folder\<close> throws when there is no active folder.
  The \<^verbatim>\<open>_postWorkspaceOpen\<close> task is handed to rollbar and not awaited.
\<close>

definition selectActiveFolder ::
    "'w env \<Rightarrow> folder option \<Rightarrow> 'w manager \<Rightarrow> error option \<times> 'w manager" where
  "selectActiveFolder E selection s =
     (if (case workspaceFolders s of None \<Rightarrow> False | Some wfs \<Rightarrow> wfs \<noteq> [])
         \<and> \<not> autoSelectActiveFolder s
      then
        (let lastActiveFolderPath = activeFolder s
         in case selection of
              None \<Rightarrow> (None, s)
            | Some sel \<Rightarrow>
                (let s1 = setActiveFolder E (Some sel) s
                 in case activeFolder s1 of
                      None \<Rightarrow> (Some TypeError, s1)
                    | Some currentActiveFolderPath \<Rightarrow>
                        (let s2 = s1\<lparr>persistedActiveFolder := Some currentActiveFolderPath\<rparr>
                         in if lastActiveFolderPath \<noteq> Some currentActiveFolderPath
                            then (None, s2\<lparr>postOpen := postOpen s2 @ [currentActiveFolderPath]\<rparr>)
                            else (None, s2))))
      else (None, s))"

text \<open>
  \<^verbatim>\<open>_initActiveFolder\<close>; \<open>activeTextEditor\<close> is \<^verbatim>\<open>vscode.window.activeTextEditor\<close>.
  Indexing \<^verbatim>\<open>vscode.workspace.workspaceFolders!\<close> throws when it is \<^verbatim>\<open>undefined\<close>.
\<close>

definition initActiveFolder ::
    "'w env \<Rightarrow> string option \<Rightarrow> 'w manager \<Rightarrow> error option \<times> 'w manager" where
  "initActiveFolder E activeTextEditor s =
     (if activeTextEditor \<noteq> None \<and> autoSelectActiveFolder s
      then (None, onDidChangeActiveTextEditor E activeTextEditor s)
      else
        (let path = persistedActiveFolder s;
             folder = (case path of
                         None \<Rightarrow> None
                       | Some p \<Rightarrow>
                           if p = [] then None
                           else (case workspaceFolders s of
                                   None \<Rightarrow> None
                                 | Some wfs \<Rightarrow> getWorkspaceFolder E wfs p))
         in case folder of
              Some f \<Rightarrow> (None, setActiveFolder E (Some f) s)
            | None \<Rightarrow>
                (case workspaceFolders s of
                   None \<Rightarrow> (Some TypeError, s)
                 | Some [] \<Rightarrow> (None, setActiveFolder E None s)
                 | Some (w # ws) \<Rightarrow> (None, setActiveFolder E (Some w) s))))"

section \<open>Subscriptions to the sessions\<close>

text \<open>
  \<^verbatim>\<open>cmt.onCodeModelChanged(FireLate, ...)\<close> and its two siblings: a new listener on a
  notification of the session, and the disposable that removes it.
\<close>

definition subscribe :: "folder \<Rightarrow> notification \<Rightarrow> 'w manager \<Rightarrow> subscription \<times> 'w manager" where
  "subscribe f ev s =
     (let sub = \<lparr>sub_id = nextSub s, sub_folder = f, sub_event = ev\<rparr>
      in (sub, s\<lparr>listeners := listeners s @ [sub], nextSub := Suc (nextSub s)\<rparr>))"

text \<open>\<^verbatim>\<open>sub.dispose()\<close>\<close>

definition dispose_sub :: "subscription \<Rightarrow> 'w manager \<Rightarrow> 'w manager" where
  "dispose_sub sub s = s\<lparr>listeners := removeAll sub (listeners s)\<rparr>"

text \<open>The three subscriptions that both the add handler and \<^verbatim>\<open>_init\<close> make for a folder.\<close>

definition subscribeCodeModel :: "folder \<Rightarrow> 'w manager \<Rightarrow> subscription list \<times> 'w manager" where
  "subscribeCodeModel f s =
     (case subscribe f CodeModelChanged s of
        (a, s1) \<Rightarrow>
          (case subscribe f TargetNameChanged s1 of
             (b, s2) \<Rightarrow>
               (case subscribe f LaunchTargetNameChanged s2 of
                  (c, s3) \<Rightarrow> ([a, b, c], s3))))"

text \<open>The handler given to \<^verbatim>\<open>_folders.onAfterAddFolder\<close> by the constructor.\<close>

definition onAfterAddFolder :: "'w env \<Rightarrow> folder \<Rightarrow> 'w manager \<Rightarrow> 'w manager" where
  "onAfterAddFolder E new_cmt s =
     (let s1 = (case workspaceFolders s of
                  Some [w] \<Rightarrow> setActiveFolder E (Some w) s
                | _ \<Rightarrow> s);
          s2 = s1\<lparr>outline := outline s1 @ [new_cmt]\<rparr>;
          s3 = (case map_of (codeModelUpdateSubs s2) new_cmt of
                  Some existing \<Rightarrow> s2
                | None \<Rightarrow>
                    (case subscribeCodeModel new_cmt s2 of
                       (subs, s') \<Rightarrow>
                         s'\<lparr>codeModelUpdateSubs := AList.update new_cmt subs (codeModelUpdateSubs s')\<rparr>))
      in s3\<lparr>postOpen := postOpen s3 @ [new_cmt]\<rparr>)"

text \<open>The handler given to \<^verbatim>\<open>_folders.onAfterRemoveFolder\<close> by the constructor.\<close>

definition onAfterRemoveFolder :: "'w env \<Rightarrow> folder \<Rightarrow> 'w manager \<Rightarrow> 'w manager" where
  "onAfterRemoveFolder E info s =
     (let s1 = s\<lparr>codeModelUpdateSubs := AList.delete info (codeModelUpdateSubs s)\<rparr>;
          s2 = (case workspaceFolders s1 of
                  None \<Rightarrow> setActiveFolder E None s1
                | Some [] \<Rightarrow> setActiveFolder E None s1
                | Some (w # ws) \<Rightarrow>
                    if activeFolder s1 = Some info then setActiveFolder E (Some w) s1 else s1)
      in s2\<lparr>outline := removeAll info (outline s2)\<rparr>)"

text \<open>
  The disposal of the code-model subscriptions in \<^verbatim>\<open>asyncDispose\<close>:
  \<^verbatim>\<open>_codeModelUpdateSubs.forEach(subs => { for (const sub of subs) sub.dispose(); })\<close>.
\<close>

definition disposeCodeModelSubs :: "'w manager \<Rightarrow> 'w manager" where
  "disposeCodeModelSubs s =
     fold (\<lambda>entry st. fold dispose_sub (snd entry) st) (codeModelUpdateSubs s) s"

text \<open>
  \<^verbatim>\<open>asyncDispose\<close>, as far as the state of the model goes: the status bar subscriptions, the
  code-model subscriptions held in the map, the editor subscription, then each session.
\<close>

definition asyncDispose :: "'w env \<Rightarrow> 'w manager \<Rightarrow> 'w manager" where
  "asyncDispose E s =
     (let s1 = disposeSubs s;
          s2 = disposeCodeModelSubs s1;
          s3 = s2\<lparr>editorSub := False\<rparr>
      in s3\<lparr>world := fold (cmt_asyncDispose E) (instances s3) (world s3)\<rparr>)"

section \<open>Start-up and the events of the workspace\<close>

text \<open>
  Modelled from the spec: the registry operations of \<^verbatim>\<open>CMakeToolsFolderController\<close> are
  missing from the sources. The spec gives: \<open>add\<close> fails with \<open>DuplicateFolder\<close> if the key
  is present, otherwise constructs and registers the session and emits the added event;
  \<open>remove\<close> is a no-op if the key is absent, otherwise disposes of the session and emits
  the removed event after the disposal; the events are delivered synchronously with the
  completion of the mutating call. The disposal of a session is \<^verbatim>\<open>cmt.asyncDispose()\<close>, a
  change of the outside world; a disposable that the manager holds is disposed of only
  by a call of its \<^verbatim>\<open>dispose()\<close>. The spec does not describe \<^verbatim>\<open>loadAllCurrent\<close>: the keys
  it registers are a parameter.
\<close>

definition folders_add :: "'w env \<Rightarrow> folder \<Rightarrow> 'w manager \<Rightarrow> error option \<times> 'w manager" where
  "folders_add E f s =
     (if f \<in> set (instances s) then (Some DuplicateFolder, s)
      else (None, onAfterAddFolder E f (s\<lparr>instances := instances s @ [f]\<rparr>)))"

definition folders_remove :: "'w env \<Rightarrow> folder \<Rightarrow> 'w manager \<Rightarrow> 'w manager" where
  "folders_remove E f s =
     (if f \<notin> set (instances s) then s
      else onAfterRemoveFolder E f
             (s\<lparr>instances := removeAll f (instances s),
                world := cmt_asyncDispose E f (world s)\<rparr>))"

definition folders_loadAllCurrent :: "folder list \<Rightarrow> 'w manager \<Rightarrow> 'w manager" where
  "folders_loadAllCurrent loaded s = s\<lparr>instances := loaded\<rparr>"

text \<open>The loop at the end of \<^verbatim>\<open>_init\<close>.\<close>

fun initLoop :: "folder list \<Rightarrow> 'w manager \<Rightarrow> 'w manager" where
  "initLoop [] s = s"
| "initLoop (cmtFolder # rest) s =
     (case subscribeCodeModel cmtFolder s of
        (subs, s1) \<Rightarrow>
          initLoop rest
            (s1\<lparr>codeModelUpdateSubs := AList.update cmtFolder subs (codeModelUpdateSubs s1),
                postOpen := postOpen s1 @ [cmtFolder]\<rparr>))"

text \<open>
  \<^verbatim>\<open>_init\<close>; \<open>loaded\<close> are the keys that \<^verbatim>\<open>loadAllCurrent\<close> registers. The editor
  subscription is made whatever the configuration says.
\<close>

definition init ::
    "'w env \<Rightarrow> string option \<Rightarrow> folder list \<Rightarrow> 'w manager \<Rightarrow> error option \<times> 'w manager" where
  "init E activeTextEditor loaded s =
     (case workspaceFolders s of
        None \<Rightarrow> (None, s)
      | Some wfs \<Rightarrow>
          (let s1 = folders_loadAllCurrent loaded s;
               s2 = s1\<lparr>outline := outline s1 @ wfs\<rparr>;
               s3 = s2\<lparr>editorSub := True\<rparr>
           in case initActiveFolder E activeTextEditor s3 of
                (Some e, s4) \<Rightarrow> (Some e, s4)
              | (None, s4) \<Rightarrow> (None, initLoop (instances s4) s4)))"

text \<open>
  The manager as the constructor leaves it, for a given editor state, configuration,
  persisted state and outside world.
\<close>

definition newManager :: "folder list option \<Rightarrow> bool \<Rightarrow> string option \<Rightarrow> 'w \<Rightarrow> 'w manager" where
  "newManager wfs autoSelect persisted w =
     \<lparr>instances = [], activeFolder = None, workspaceFolders = wfs,
      autoSelectActiveFolder = autoSelect, persistedActiveFolder = persisted,
      codeModelUpdateSubs = [], listeners = [], nextSub = 0, editorSub = False,
      statusFolderName = [], statusKitName = [], statusVisible = False, statusSubs = None,
      outline = [], postOpen = [], errors = [], invoked = [], world = w\<rparr>"

text \<open>\<^verbatim>\<open>ExtensionManager.create\<close>: the constructor, then \<^verbatim>\<open>_init\<close>.\<close>

definition create ::
    "'w env \<Rightarrow> folder list option \<Rightarrow> bool \<Rightarrow> string option \<Rightarrow> string option \<Rightarrow> folder list
       \<Rightarrow> 'w \<Rightarrow> 'w manager" where
  "create E wfs autoSelect persisted activeTextEditor loaded w =
     snd (init E activeTextEditor loaded (newManager wfs autoSelect persisted w))"

text \<open>
  What can happen to a running manager. A change of the workspace carries the value of
  \<^verbatim>\<open>vscode.workspace.workspaceFolders\<close> that the handlers then read.
\<close>

datatype 'w event =
    FolderAdded folder "folder list option"
  | FolderRemoved folder "folder list option"
  | EditorFocus "string option"
  | SelectActiveFolder "folder option"
  | SetActiveFolder "folder option"
  | ConfigChanged bool
  | Command "'w mapArgs"

fun step :: "'w env \<Rightarrow> 'w manager \<Rightarrow> 'w event \<Rightarrow> 'w manager" where
  "step E s (FolderAdded f wfs) = snd (folders_add E f (s\<lparr>workspaceFolders := wfs\<rparr>))"
| "step E s (FolderRemoved f wfs) = folders_remove E f (s\<lparr>workspaceFolders := wfs\<rparr>)"
| "step E s (EditorFocus editor) =
     (if editorSub s then onDidChangeActiveTextEditor E editor s else s)"
| "step E s (SelectActiveFolder selection) = snd (selectActiveFolder E selection s)"
| "step E s (SetActiveFolder ws) = setActiveFolder E ws s"
| "step E s (ConfigChanged b) = s\<lparr>autoSelectActiveFolder := b\<rparr>"
| "step E s (Command args) = snd (mapCMakeTools E args s)"

definition run :: "'w env \<Rightarrow> 'w manager \<Rightarrow> 'w event list \<Rightarrow> 'w manager" where
  "run E s evs = foldl (step E) s evs"

text \<open>The active folder is empty or a key of the registry.\<close>

definition activeFolderValid :: "'w manager \<Rightarrow> bool" where
  "activeFolderValid s =
     (case activeFolder s of None \<Rightarrow> True | Some f \<Rightarrow> f \<in> set (instances s))"

text \<open>The calls of dispatched operations made between two states.\<close>

definition newCalls :: "'w manager \<Rightarrow> 'w manager \<Rightarrow> (folder \<times> jsval) list" where
  "newCalls s s' = drop (length (invoked s)) (invoked s')"

section \<open>A concrete workspace\<close>

text \<open>
  An outside world to run the manager in: the active kit of each session and the driver
  operations started so far. Every operation on the folder \<open>/ws/s2\<close> exits with 1, a debug
  or launch gives a handle, every other operation exits with 0; the user cancels the kit
  picker.
\<close>

record demo_world =
  kits :: "(folder \<times> kit) list"
  started :: "(folder \<times> driver_op) list"

definition demoResult :: "driver_op \<Rightarrow> folder \<Rightarrow> jsval" where
  "demoResult op f =
     (case op of
        DebugTarget n \<Rightarrow> Obj 1
      | LaunchTarget n \<Rightarrow> Obj 2
      | _ \<Rightarrow> if f = ''/ws/s2'' then Num 1 else Num 0)"

definition demoEnv :: "demo_world env" where
  "demoEnv =
     \<lparr>cmt_activeKit = (\<lambda>f w. map_of (kits w) f),
      kc_selectKit = (\<lambda>f w. (None, w)),
      cmt_op = (\<lambda>op f w. (demoResult op f, w\<lparr>started := started w @ [(f, op)]\<rparr>)),
      CMT_TESTING = False,
      cmt_asyncDispose = (\<lambda>f w. w),
      getWorkspaceFolder = (\<lambda>wfs uri. find (\<lambda>w. prefix w uri) wfs),
      wf_name = (\<lambda>f. f)\<rparr>"

definition demoWorld :: demo_world where
  "demoWorld =
     \<lparr>kits = [(''/ws/s1'', Kit ''gcc''), (''/ws/s2'', Kit ''gcc''), (''/ws/s3'', Kit ''clang'')],
      started = []\<rparr>"

text \<open>Three folders open, each with a kit, the first one active.\<close>

definition demoManager :: "demo_world manager" where
  "demoManager =
     (newManager (Some [''/ws/s1'', ''/ws/s2'', ''/ws/s3'']) False None demoWorld)
       \<lparr>instances := [''/ws/s1'', ''/ws/s2'', ''/ws/s3''], activeFolder := Some ''/ws/s1''\<rparr>"

text \<open>One folder open and active, without a kit.\<close>

definition noKitManager :: "demo_world manager" where
  "noKitManager =
     (newManager (Some [''/ws/a'']) False None \<lparr>kits = [], started = []\<rparr>)
       \<lparr>instances := [''/ws/a''], activeFolder := Some ''/ws/a''\<rparr>"

text \<open>No folder open.\<close>

definition emptyManager :: "demo_world manager" where
  "emptyManager = newManager None False None demoWorld"

text \<open>Three folders open, the first one active, the auto-select policy enabled.\<close>

definition autoSelectManager :: "demo_world manager" where
  "autoSelectManager = demoManager\<lparr>autoSelectActiveFolder := True\<rparr>"

text \<open>
  The manager created on three folders with the auto-select policy disabled, nothing
  persisted and no editor open.
\<close>

definition createdManager :: "demo_world manager" where
  "createdManager =
     create demoEnv (Some [''/ws/s1'', ''/ws/s2'', ''/ws/s3'']) False None None
       [''/ws/s1'', ''/ws/s2'', ''/ws/s3''] demoWorld"

text \<open>One folder added to a manager without folders; then the same folder removed.\<close>

definition addedManager :: "demo_world manager" where
  "addedManager = run demoEnv emptyManager [FolderAdded ''/ws/a'' (Some [''/ws/a''])]"

definition removedManager :: "demo_world manager" where
  "removedManager = run demoEnv addedManager [FolderRemoved ''/ws/a'' (Some [])]"

section \<open>The fan-out of the spec, for comparison\<close>

text \<open>
  The result of the dispatch to each folder of a list, in order: what a fan-out over the
  registry yields with one entry per folder. The loops of \<^verbatim>\<open>debugTargetAll\<close> and
  \<^verbatim>\<open>launchTargetAll\<close> are compared with it.
\<close>

fun folderResults ::
    "'w env \<Rightarrow> 'w cmakeToolsMapFn \<Rightarrow> folder list \<Rightarrow> 'w manager \<Rightarrow> jsval list \<times> 'w manager" where
  "folderResults E fn [] s = ([], s)"
| "folderResults E fn (f # fs) s =
     (case mapCMakeTools E (OnOne (Some f) fn) s of
        (r, s1) \<Rightarrow> (case folderResults E fn fs s1 of (rs, s2) \<Rightarrow> (r # rs, s2)))"

section \<open>Properties of the dispatcher\<close>

lemmas demo_defs = demoEnv_def demoWorld_def demoResult_def newManager_def

subsection \<open>The log of calls\<close>

lemma selectKit_invoked: "invoked (snd (selectKit E folder s)) = invoked s"
  by (auto simp: selectKit_def Let_def split: option.splits prod.splits)

lemma ensureActiveKit_invoked: "ensureActiveKit E c s = (b, s1) \<Longrightarrow> invoked s1 = invoked s"
  by (auto simp: ensureActiveKit_def split: option.splits prod.splits if_splits)
     (metis selectKit_invoked snd_conv)+

lemma invoke_invoked: "invoke fn f s = (r, s') \<Longrightarrow> invoked s' = invoked s @ [(f, r)]"
  by (auto simp: invoke_def split: prod.splits)

subsection \<open>Dispatch to all folders\<close>

text \<open>
  A round of the loop over all folders is the dispatch to one given session, followed by
  the test of its result.
\<close>

lemma mapAllLoop_step:
  "mapAllLoop E fn (folder # rest) s =
     (case mapCMakeTools E (OnOne (Some folder) fn) s of
        (r, s1) \<Rightarrow> if truthy r then (r, s1) else mapAllLoop E fn rest s1)"
  by (auto simp: mapCMakeTools_def split: prod.splits bool.splits)

lemma mapAllLoop_log:
  "mapAllLoop E fn fs s = (r, s') \<Longrightarrow>
   \<exists>L. invoked s' = invoked s @ L \<and> prefix (map fst L) fs \<and>
       (\<forall>e\<in>set (butlast L). \<not> truthy (snd e)) \<and>
       ((L \<noteq> [] \<and> truthy (snd (last L)) \<and> r = snd (last L)) \<or>
        ((\<forall>e\<in>set L. \<not> truthy (snd e)) \<and> r = Num (- 1) \<and> length L < length fs \<and>
         (\<exists>s0. ensureActiveKit E (Some (fs ! length L)) s0 = (False, s'))) \<or>
        ((\<forall>e\<in>set L. \<not> truthy (snd e)) \<and> r = Num 0 \<and> map fst L = fs))"
proof (induction fs arbitrary: s)
  case Nil
  then show ?case by simp
next
  case (Cons f fs)
  obtain b s1 where k: "ensureActiveKit E (Some f) s = (b, s1)" by force
  have i1: "invoked s1 = invoked s" using ensureActiveKit_invoked[OF k] .
  show ?case
  proof (cases b)
    case False
    with Cons.prems k have "r = Num (- 1)" "s' = s1" by auto
    with i1 k False show ?thesis by (intro exI[of _ "[]"]) auto
  next
    case True
    obtain retc s2 where c: "invoke fn f s1 = (retc, s2)" by force
    have i2: "invoked s2 = invoked s @ [(f, retc)]" using invoke_invoked[OF c] i1 by simp
    show ?thesis
    proof (cases "truthy retc")
      case t: True
      with Cons.prems k c True have "r = retc" "s' = s2" by auto
      with i2 t show ?thesis by (intro exI[of _ "[(f, retc)]"]) simp
    next
      case f: False
      with Cons.prems k c True have "mapAllLoop E fn fs s2 = (r, s')" by auto
      from Cons.IH[OF this] obtain L where L: "invoked s' = invoked s2 @ L" "prefix (map fst L) fs"
        "\<forall>e\<in>set (butlast L). \<not> truthy (snd e)"
        "(L \<noteq> [] \<and> truthy (snd (last L)) \<and> r = snd (last L)) \<or>
        ((\<forall>e\<in>set L. \<not> truthy (snd e)) \<and> r = Num (- 1) \<and> length L < length fs \<and>
         (\<exists>s0. ensureActiveKit E (Some (fs ! length L)) s0 = (False, s'))) \<or>
        ((\<forall>e\<in>set L. \<not> truthy (snd e)) \<and> r = Num 0 \<and> map fst L = fs)" by blast
      show ?thesis
        using L i2 f by (intro exI[of _ "(f, retc) # L"]) (auto dest: in_set_butlastD split: if_splits)
    qed
  qed
qed

text \<open>
  The two steps of a round, in terms of the collaborators alone: the ensure-kit step
  leaves the state as it is when the session has a kit and otherwise leaves the state
  that \<^verbatim>\<open>selectKit()\<close> leaves, and it succeeds exactly when the session has a kit in that
  state; the call applies the operation to the outside world and logs its result.
\<close>

lemma ensureActiveKit_Some:
  "ensureActiveKit E (Some f) t =
     (cmt_activeKit E f
        (world (if cmt_activeKit E f (world t) \<noteq> None then t else snd (selectKit E None t))) \<noteq> None,
      if cmt_activeKit E f (world t) \<noteq> None then t else snd (selectKit E None t))"
  by (auto simp: ensureActiveKit_def split: prod.splits)

lemma invoke_eq:
  "invoke fn f t =
     (fst (fn f (world t)),
      t\<lparr>world := snd (fn f (world t)), invoked := invoked t @ [(f, fst (fn f (world t)))]\<rparr>)"
  by (simp add: invoke_def split: prod.splits)

lemma mapAllLoop_trace_aux:
  fixes s :: "'w manager"
  assumes K: "K = (\<lambda>g (t :: 'w manager).
                     if cmt_activeKit E g (world t) \<noteq> None then t else snd (selectKit E None t))"
      and C: "C = (\<lambda>g (t :: 'w manager) x. t\<lparr>world := snd (fn g (world t)), invoked := invoked t @ [(g, x)]\<rparr>)"
      and run: "mapAllLoop E fn fs s = (r, s')"
  shows "\<exists>ts rs.
     length ts = Suc (length rs) \<and> length rs \<le> length fs \<and> ts ! 0 = s \<and>
     invoked s' = invoked s @ zip (take (length rs) fs) rs \<and>
     (\<forall>i<length rs.
        cmt_activeKit E (fs ! i) (world (K (fs ! i) (ts ! i))) \<noteq> None \<and>
        rs ! i = fst (fn (fs ! i) (world (K (fs ! i) (ts ! i)))) \<and>
        ts ! Suc i = C (fs ! i) (K (fs ! i) (ts ! i)) (rs ! i)) \<and>
     (\<forall>i<length rs - 1. \<not> truthy (rs ! i)) \<and>
     ((rs \<noteq> [] \<and> truthy (last rs) \<and> r = last rs \<and> s' = last ts) \<or>
      ((\<forall>x\<in>set rs. \<not> truthy x) \<and> length rs < length fs \<and>
       cmt_activeKit E (fs ! length rs) (world (K (fs ! length rs) (last ts))) = None \<and>
       r = Num (- 1) \<and> s' = K (fs ! length rs) (last ts)) \<or>
      ((\<forall>x\<in>set rs. \<not> truthy x) \<and> length rs = length fs \<and> r = Num 0 \<and> s' = last ts))"
  using run
proof (induction fs arbitrary: s)
  case Nil
  then show ?case
    by (intro exI[of _ "[s]"] exI[of _ "[]"]) simp
next
  case (Cons f fs)
  have ek: "\<And>g t. ensureActiveKit E (Some g) t = (cmt_activeKit E g (world (K g t)) \<noteq> None, K g t)"
    unfolding K by (rule ensureActiveKit_Some)
  have iv: "\<And>g t. invoke fn g t = (fst (fn g (world t)), C g t (fst (fn g (world t))))"
    unfolding C by (rule invoke_eq)
  have Kinv: "\<And>g t. invoked (K g t) = invoked t"
    unfolding K by (simp add: selectKit_invoked)
  have Cinv: "\<And>g t x. invoked (C g t x) = invoked t @ [(g, x)]"
    unfolding C by simp
  define t0 where "t0 = K f s"
  define retc where "retc = fst (fn f (world t0))"
  define s2 where "s2 = C f t0 retc"
  have ek0: "ensureActiveKit E (Some f) s = (cmt_activeKit E f (world t0) \<noteq> None, t0)"
    unfolding t0_def by (rule ek)
  have iv0: "invoke fn f t0 = (retc, s2)"
    unfolding s2_def retc_def by (rule iv)
  have inv0: "invoked t0 = invoked s" unfolding t0_def by (rule Kinv)
  have inv2: "invoked s2 = invoked s @ [(f, retc)]" unfolding s2_def using Cinv inv0 by simp
  show ?case
  proof (cases "cmt_activeKit E f (world t0) = None")
    case True
    with Cons.prems ek0 have res: "r = Num (- 1)" "s' = t0" by auto
    show ?thesis
      using res True inv0 t0_def
      by (intro exI[of _ "[s]"] exI[of _ "[]"]) simp
  next
    case kit: False
    show ?thesis
    proof (cases "truthy retc")
      case True
      with Cons.prems ek0 iv0 kit have res: "r = retc" "s' = s2" by auto
      have "cmt_activeKit E f (world (K f s)) \<noteq> None \<and> retc = fst (fn f (world (K f s))) \<and>
            s2 = C f (K f s) retc"
        using kit by (simp add: t0_def[symmetric] retc_def s2_def)
      then show ?thesis
        using res True inv2
        by (intro exI[of _ "[s, s2]"] exI[of _ "[retc]"]) simp
    next
      case False
      with Cons.prems ek0 iv0 kit
      have "mapAllLoop E fn fs s2 = (r, s')" by auto
      from Cons.IH[OF this] obtain ts rs where
        len: "length ts = Suc (length rs)" "length rs \<le> length fs" and
        t0': "ts ! 0 = s2" and
        lg: "invoked s' = invoked s2 @ zip (take (length rs) fs) rs" and
        ch: "\<forall>i<length rs. cmt_activeKit E (fs ! i) (world (K (fs ! i) (ts ! i))) \<noteq> None \<and>
               rs ! i = fst (fn (fs ! i) (world (K (fs ! i) (ts ! i)))) \<and>
               ts ! Suc i = C (fs ! i) (K (fs ! i) (ts ! i)) (rs ! i)" and
        fl: "\<forall>i<length rs - 1. \<not> truthy (rs ! i)" and
        fin: "(rs \<noteq> [] \<and> truthy (last rs) \<and> r = last rs \<and> s' = last ts) \<or>
              ((\<forall>x\<in>set rs. \<not> truthy x) \<and> length rs < length fs \<and>
               cmt_activeKit E (fs ! length rs) (world (K (fs ! length rs) (last ts))) = None \<and>
               r = Num (- 1) \<and> s' = K (fs ! length rs) (last ts)) \<or>
              ((\<forall>x\<in>set rs. \<not> truthy x) \<and> length rs = length fs \<and> r = Num 0 \<and> s' = last ts)"
        by blast
      from len have tsne: "ts \<noteq> []" by auto
      let ?ts = "s # ts" and ?rs = "retc # rs"
      have a: "length ?ts = Suc (length ?rs) \<and> length ?rs \<le> length (f # fs) \<and> ?ts ! 0 = s"
        using len by simp
      have b: "invoked s' = invoked s @ zip (take (length ?rs) (f # fs)) ?rs"
        using lg inv2 by simp
      have c: "\<forall>i<length ?rs. cmt_activeKit E ((f # fs) ! i) (world (K ((f # fs) ! i) (?ts ! i))) \<noteq> None \<and>
               ?rs ! i = fst (fn ((f # fs) ! i) (world (K ((f # fs) ! i) (?ts ! i)))) \<and>
               ?ts ! Suc i = C ((f # fs) ! i) (K ((f # fs) ! i) (?ts ! i)) (?rs ! i)"
      proof (intro allI impI)
        fix i assume "i < length ?rs"
        show "cmt_activeKit E ((f # fs) ! i) (world (K ((f # fs) ! i) (?ts ! i))) \<noteq> None \<and>
               ?rs ! i = fst (fn ((f # fs) ! i) (world (K ((f # fs) ! i) (?ts ! i)))) \<and>
               ?ts ! Suc i = C ((f # fs) ! i) (K ((f # fs) ! i) (?ts ! i)) (?rs ! i)"
        proof (cases i)
          case 0
          with kit t0' show ?thesis by (simp add: t0_def[symmetric] retc_def s2_def)
        next
          case (Suc j)
          with \<open>i < length ?rs\<close> have "j < length rs" by simp
          with ch Suc show ?thesis by simp
        qed
      qed
      have d: "\<forall>i<length ?rs - 1. \<not> truthy (?rs ! i)"
      proof (intro allI impI)
        fix i assume i: "i < length ?rs - 1"
        show "\<not> truthy (?rs ! i)"
        proof (cases i)
          case 0
          with False show ?thesis by simp
        next
          case (Suc j)
          with i have "j < length rs - 1" by simp
          with fl Suc show ?thesis by simp
        qed
      qed
      have e: "(?rs \<noteq> [] \<and> truthy (last ?rs) \<and> r = last ?rs \<and> s' = last ?ts) \<or>
              ((\<forall>x\<in>set ?rs. \<not> truthy x) \<and> length ?rs < length (f # fs) \<and>
               cmt_activeKit E ((f # fs) ! length ?rs) (world (K ((f # fs) ! length ?rs) (last ?ts))) = None \<and>
               r = Num (- 1) \<and> s' = K ((f # fs) ! length ?rs) (last ?ts)) \<or>
              ((\<forall>x\<in>set ?rs. \<not> truthy x) \<and> length ?rs = length (f # fs) \<and> r = Num 0 \<and> s' = last ?ts)"
        using fin False tsne by auto
      from a b c d e show ?thesis
        by (intro exI[of _ ?ts] exI[of _ ?rs]) (intro conjI; blast)
    qed
  qed
qed

text \<open>
  Claim C1. The dispatch to all folders (\<^verbatim>\<open>mapCMakeTools\<close> with one function argument) goes
  through the sessions in registry order, one after the other.

  First, on the log of calls: the sessions on which the operation was called form a prefix
  of the registry, each called once, and every call but the last returned a falsy value
  (zero, for an exit code). Either the last call returned a truthy (non-zero) value, which
  is the result; or every call returned zero and the dispatch stopped before the end with
  the result -1; or the operation was called on every session, returned zero each time,
  and the result is 0.

  Second, the run itself, round by round. There are the states \<open>ts\<close> at the start of each
  round (the first is the initial state) and the results \<open>rs\<close> of the calls. In round
  \<open>i\<close> the ensure-kit step runs on session \<open>i\<close> of the registry from the state \<open>ts ! i\<close>,
  the session has a kit after it, the operation is applied to that session in the outside
  world of that state, \<open>rs ! i\<close> is what the operation returned, and the next state has the
  outside world the operation left and the call added to the log. Every result but the
  last is falsy. The run ends in one of three ways: the last result is truthy, and it is
  returned with the state after that call, so that no later session is asked for a kit or
  called; or every result is falsy and the next session has no kit after its ensure-kit
  step, and -1 is returned with the state that step left, the operation being called
  neither on that session nor on a later one; or every session was called with a falsy
  result, and 0 is returned with the state after the last call.
\<close>

theorem runOnAll_fail_fast:
  fixes s :: "'w manager"
  assumes "mapCMakeTools E (OnAll fn) s = (r, s')"
  shows "(invoked s' = invoked s @ newCalls s s' \<and>
          prefix (map fst (newCalls s s')) (instances s) \<and>
          (\<forall>e\<in>set (butlast (newCalls s s')). \<not> truthy (snd e)) \<and>
          ((newCalls s s' \<noteq> [] \<and> truthy (snd (last (newCalls s s'))) \<and>
            r = snd (last (newCalls s s'))) \<or>
           ((\<forall>e\<in>set (newCalls s s'). \<not> truthy (snd e)) \<and> r = Num (- 1) \<and>
            length (newCalls s s') < length (instances s)) \<or>
           ((\<forall>e\<in>set (newCalls s s'). \<not> truthy (snd e)) \<and> r = Num 0 \<and>
            map fst (newCalls s s') = instances s))) \<and>
         (\<exists>ts rs.
            length ts = Suc (length rs) \<and> length rs \<le> length (instances s) \<and> ts ! 0 = s \<and>
            invoked s' = invoked s @ zip (take (length rs) (instances s)) rs \<and>
            (\<forall>i<length rs.
               cmt_activeKit E (instances s ! i)
                 (world (if cmt_activeKit E (instances s ! i) (world (ts ! i)) \<noteq> None then ts ! i
                         else snd (selectKit E None (ts ! i)))) \<noteq> None \<and>
               rs ! i =
                 fst (fn (instances s ! i)
                        (world (if cmt_activeKit E (instances s ! i) (world (ts ! i)) \<noteq> None
                                then ts ! i else snd (selectKit E None (ts ! i))))) \<and>
               ts ! Suc i =
                 (if cmt_activeKit E (instances s ! i) (world (ts ! i)) \<noteq> None then ts ! i
                  else snd (selectKit E None (ts ! i)))
                   \<lparr>world :=
                      snd (fn (instances s ! i)
                             (world (if cmt_activeKit E (instances s ! i) (world (ts ! i)) \<noteq> None
                                     then ts ! i else snd (selectKit E None (ts ! i))))),
                    invoked :=
                      invoked (if cmt_activeKit E (instances s ! i) (world (ts ! i)) \<noteq> None
                               then ts ! i else snd (selectKit E None (ts ! i)))
                        @ [(instances s ! i, rs ! i)]\<rparr>) \<and>
            (\<forall>i<length rs - 1. \<not> truthy (rs ! i)) \<and>
            ((rs \<noteq> [] \<and> truthy (last rs) \<and> r = last rs \<and> s' = last ts) \<or>
             ((\<forall>x\<in>set rs. \<not> truthy x) \<and> length rs < length (instances s) \<and>
              cmt_activeKit E (instances s ! length rs)
                (world (if cmt_activeKit E (instances s ! length rs) (world (last ts)) \<noteq> None
                        then last ts else snd (selectKit E None (last ts)))) = None \<and>
              r = Num (- 1) \<and>
              s' = (if cmt_activeKit E (instances s ! length rs) (world (last ts)) \<noteq> None
                    then last ts else snd (selectKit E None (last ts)))) \<or>
             ((\<forall>x\<in>set rs. \<not> truthy x) \<and> length rs = length (instances s) \<and> r = Num 0 \<and>
              s' = last ts)))"
proof -
  from assms have run: "mapAllLoop E fn (instances s) s = (r, s')"
    by (simp add: mapCMakeTools_def)
  from mapAllLoop_log[OF run] obtain L where L: "invoked s' = invoked s @ L"
    and rest: "prefix (map fst L) (instances s) \<and>
       (\<forall>e\<in>set (butlast L). \<not> truthy (snd e)) \<and>
       ((L \<noteq> [] \<and> truthy (snd (last L)) \<and> r = snd (last L)) \<or>
        ((\<forall>e\<in>set L. \<not> truthy (snd e)) \<and> r = Num (- 1) \<and> length L < length (instances s)) \<or>
        ((\<forall>e\<in>set L. \<not> truthy (snd e)) \<and> r = Num 0 \<and> map fst L = instances s))" by blast
  from L have "newCalls s s' = L" by (simp add: newCalls_def)
  with L rest have log: "invoked s' = invoked s @ newCalls s s' \<and>
          prefix (map fst (newCalls s s')) (instances s) \<and>
          (\<forall>e\<in>set (butlast (newCalls s s')). \<not> truthy (snd e)) \<and>
          ((newCalls s s' \<noteq> [] \<and> truthy (snd (last (newCalls s s'))) \<and>
            r = snd (last (newCalls s s'))) \<or>
           ((\<forall>e\<in>set (newCalls s s'). \<not> truthy (snd e)) \<and> r = Num (- 1) \<and>
            length (newCalls s s') < length (instances s)) \<or>
           ((\<forall>e\<in>set (newCalls s s'). \<not> truthy (snd e)) \<and> r = Num 0 \<and>
            map fst (newCalls s s') = instances s))" by simp
  note tr = mapAllLoop_trace_aux[OF refl refl run]
  show ?thesis by (rule conjI[OF log tr])
qed

text \<open>
  The scenario of the spec: three sessions, the operation exits with 0 on the first and
  with 1 on the second. The log shows the two calls and the theorem gives the result 1;
  the driver was started on the first two folders and not on the third.
\<close>

theorem runOnAll_fail_fast_witness:
  "fst (mapCMakeTools demoEnv (OnAll (cmt_op demoEnv (Build None))) demoManager) = Num 1 \<and>
   newCalls demoManager (snd (mapCMakeTools demoEnv (OnAll (cmt_op demoEnv (Build None))) demoManager))
     = [(''/ws/s1'', Num 0), (''/ws/s2'', Num 1)] \<and>
   started (world (snd (mapCMakeTools demoEnv (OnAll (cmt_op demoEnv (Build None))) demoManager)))
     = [(''/ws/s1'', Build None), (''/ws/s2'', Build None)] \<and>
   instances demoManager = [''/ws/s1'', ''/ws/s2'', ''/ws/s3'']"
proof -
  let ?X = "mapCMakeTools demoEnv (OnAll (cmt_op demoEnv (Build None))) demoManager"
  have run: "?X = (fst ?X, snd ?X)" by simp
  have calls: "newCalls demoManager (snd ?X) = [(''/ws/s1'', Num 0), (''/ws/s2'', Num 1)]"
    by (simp add: demo_defs demoManager_def newCalls_def mapCMakeTools_def ensureActiveKit_def
          invoke_def)
  have st: "started (world (snd ?X)) = [(''/ws/s1'', Build None), (''/ws/s2'', Build None)]"
    by (simp add: demo_defs demoManager_def mapCMakeTools_def ensureActiveKit_def invoke_def)
  have inst: "instances demoManager = [''/ws/s1'', ''/ws/s2'', ''/ws/s3'']"
    by (simp add: demo_defs demoManager_def)
  from runOnAll_fail_fast[OF run, THEN conjunct1] calls st inst show ?thesis by simp
qed

subsection \<open>Dispatch to a session without a kit\<close>

text \<open>
  Claim C4. A dispatch to one session, the given one or the active one, that has no active
  kit, where the kit selection answers that nothing was chosen and the session still has
  no kit afterwards: the result is -1, a value that tests as a failure; the operation is
  not called; the manager is in the state the kit selection left, and the outside world
  (the sessions) is what the kit picker left, or untouched when the picker did not run.
\<close>

theorem dispatch_without_kit:
  assumes "target = Some c \<or> (target = None \<and> activeFolder s = Some c)"
      and "cmt_activeKit E c (world s) = None"
      and "selectKit E None s = (False, s1)"
      and "cmt_activeKit E c (world s1) = None"
  shows "mapCMakeTools E (OnOne target fn) s = (Num (- 1), s1) \<and> truthy (Num (- 1)) \<and>
         newCalls s s1 = [] \<and> invoked s1 = invoked s \<and>
         world s1 = (if CMT_TESTING E then world s
                     else case activeFolder s of
                            None \<Rightarrow> world s
                          | Some a \<Rightarrow> snd (kc_selectKit E a (world s)))"
proof -
  have e: "ensureActiveKit E (Some c) s = (False, s1)"
    using assms(2-4) by (simp add: ensureActiveKit_def)
  have d: "mapCMakeTools E (OnOne target fn) s = (Num (- 1), s1)"
    using assms(1) e by (auto simp: mapCMakeTools_def)
  have i: "invoked s1 = invoked s"
    using ensureActiveKit_invoked[OF e] .
  have w: "world s1 = (if CMT_TESTING E then world s
                     else case activeFolder s of
                            None \<Rightarrow> world s
                          | Some a \<Rightarrow> snd (kc_selectKit E a (world s)))"
    using assms(3)
    by (auto simp: selectKit_def checkFolderArgs_def Let_def split: option.splits prod.splits if_splits)
  from d i w show ?thesis by (simp add: newCalls_def)
qed

text \<open>
  The scenario of the spec: one folder open without a kit, the user cancels the picker.
  The build on the active folder gives -1 and leaves the manager and the session as they
  were.
\<close>

theorem dispatch_without_kit_witness:
  "mapCMakeTools demoEnv (OnOne None (cmt_op demoEnv (Build None))) noKitManager
     = (Num (- 1), noKitManager) \<and>
   started (world noKitManager) = [] \<and> invoked noKitManager = []"
proof -
  have a: "None = Some ''/ws/a'' \<or>
           (None = (None :: folder option) \<and> activeFolder noKitManager = Some ''/ws/a'')"
    by (simp add: demo_defs noKitManager_def)
  have k: "cmt_activeKit demoEnv ''/ws/a'' (world noKitManager) = None"
    by (simp add: demo_defs noKitManager_def)
  have p: "selectKit demoEnv None noKitManager = (False, noKitManager)"
    by (simp add: demo_defs noKitManager_def selectKit_def checkFolderArgs_def)
  from dispatch_without_kit[OF a k p k, of "cmt_op demoEnv (Build None)"]
  show ?thesis by (simp add: demo_defs noKitManager_def)
qed

subsection \<open>Dispatch without an active folder\<close>

lemmas dispatch_defs = mapCMakeToolsFolder_def mapCMakeTools_def ensureActiveKit_def invoke_def
  get_def

lemma mapCMakeTools_no_active_folder:
  "activeFolder s = None \<Longrightarrow>
   mapCMakeTools E (OnOne None fn) s = (Num 0, s\<lparr>errors := errors s @ [''No active foler.'']\<rparr>)"
  by (simp add: mapCMakeTools_def)

text \<open>
  Claim C3 says that a dispatch to the active session, when there is none, fails with a
  result that differs from the success code 0. With no folder open, the code reports the
  error to rollbar and returns 0, the value that the build on an active folder returns
  when it succeeds.
\<close>

theorem no_active_folder_returns_zero:
  "activeFolder emptyManager = None \<and>
   mapCMakeTools demoEnv (OnOne None (cmt_op demoEnv (Build None))) emptyManager
     = (Num 0, emptyManager\<lparr>errors := [''No active foler.'']\<rparr>) \<and>
   fst (mapCMakeTools demoEnv (OnOne None (cmt_op demoEnv (Build None))) demoManager) = Num 0 \<and>
   newCalls demoManager (snd (mapCMakeTools demoEnv (OnOne None (cmt_op demoEnv (Build None))) demoManager))
     = [(''/ws/s1'', Num 0)]"
  by (simp add: demo_defs demoManager_def emptyManager_def dispatch_defs newCalls_def)

subsection \<open>The commands on one folder\<close>

lemma mapCMakeToolsFolder_undefined: "fst (mapCMakeToolsFolder E folder fn s) = Undefined"
  by (simp add: mapCMakeToolsFolder_def split: prod.splits)

lemma mapCMakeToolsFolder_state:
  "snd (mapCMakeToolsFolder E folder fn s) = snd (mapCMakeTools E (OnOne (get s folder) fn) s)"
  by (simp add: mapCMakeToolsFolder_def split: prod.splits)

text \<open>
  Claim C2 says that a command on one folder returns the result code of its operation:
  0 on success, non-zero on failure, never an absent value. The build on the folder
  \<open>/ws/s2\<close> calls the operation, which exits with 1, and returns \<^verbatim>\<open>undefined\<close>; the build
  on the active folder, where the operation exits with 0, returns \<^verbatim>\<open>undefined\<close> as well.
\<close>

theorem build_returns_undefined:
  "fst (build demoEnv (Some ''/ws/s2'') None demoManager) = Undefined \<and>
   newCalls demoManager (snd (build demoEnv (Some ''/ws/s2'') None demoManager))
     = [(''/ws/s2'', Num 1)] \<and>
   fst (build demoEnv None None demoManager) = Undefined \<and>
   newCalls demoManager (snd (build demoEnv None None demoManager)) = [(''/ws/s1'', Num 0)]"
  by (simp add: demo_defs demoManager_def dispatch_defs build_def newCalls_def)

subsection \<open>Clean, then rebuild\<close>

lemma cleanRebuild_runs_both:
  "cleanRebuild E folder s = build E folder None (snd (build E folder (Some ''clean'') s))"
  by (simp add: cleanRebuild_def build_def mapCMakeToolsFolder_def split: prod.splits)

lemma cleanRebuildAll_stops:
  "buildAll E (Some ''clean'') s = (retc, s1) \<Longrightarrow> truthy retc \<Longrightarrow> cleanRebuildAll E s = (retc, s1)"
  by (simp add: cleanRebuildAll_def)

lemma cleanRebuildAll_continues:
  "buildAll E (Some ''clean'') s = (retc, s1) \<Longrightarrow> \<not> truthy retc \<Longrightarrow>
   cleanRebuildAll E s = buildAll E None s1"
  by (simp add: cleanRebuildAll_def)

lemma cleanRebuildAll_demo:
  "fst (cleanRebuildAll demoEnv demoManager) = Num 1 \<and>
   started (world (snd (cleanRebuildAll demoEnv demoManager)))
     = [(''/ws/s1'', Build (Some ''clean'')), (''/ws/s2'', Build (Some ''clean''))]"
  by (simp add: demo_defs demoManager_def dispatch_defs buildAll_def cleanRebuildAll_def)

text \<open>
  Claim C5 says that a clean-then-rebuild returns the non-zero result of a failed clean
  and does not start the rebuild. On the folder \<open>/ws/s2\<close> the clean exits with 1;
  \<^verbatim>\<open>cleanRebuild\<close> starts the rebuild all the same and returns \<^verbatim>\<open>undefined\<close>.
  (\<^verbatim>\<open>cleanRebuildAll\<close> does stop: the three lemmas above.)
\<close>

theorem cleanRebuild_runs_rebuild_after_failed_clean:
  "newCalls demoManager (snd (build demoEnv (Some ''/ws/s2'') (Some ''clean'') demoManager))
     = [(''/ws/s2'', Num 1)] \<and>
   fst (cleanRebuild demoEnv (Some ''/ws/s2'') demoManager) = Undefined \<and>
   started (world (snd (cleanRebuild demoEnv (Some ''/ws/s2'') demoManager)))
     = [(''/ws/s2'', Build (Some ''clean'')), (''/ws/s2'', Build None)]"
  by (simp add: demo_defs demoManager_def dispatch_defs build_def cleanRebuild_def newCalls_def)

section \<open>Properties of the active folder\<close>

subsection \<open>The active folder is a key of the registry\<close>

lemmas arbiter_defs = create_def init_def folders_loadAllCurrent_def initActiveFolder_def
  setActiveFolder_def folders_setActiveFolder_def setupSubscriptions_def disposeSubs_def get_def
  subscribeCodeModel_def subscribe_def folders_add_def folders_remove_def onAfterAddFolder_def
  onAfterRemoveFolder_def selectActiveFolder_def onDidChangeActiveTextEditor_def run_def
  Let_def

lemma activeFolderValid_iff:
  "activeFolderValid s \<longleftrightarrow> (\<forall>f. activeFolder s = Some f \<longrightarrow> f \<in> set (instances s))"
  by (auto simp: activeFolderValid_def split: option.splits)

lemma get_valid: "get s ws = Some f \<Longrightarrow> f \<in> set (instances s)"
  by (auto simp: get_def split: option.splits if_splits)

lemma setActiveFolder_fields:
  "instances (setActiveFolder E ws s) = instances s"
  "activeFolder (setActiveFolder E ws s) = get s ws"
  "listeners (setActiveFolder E ws s) = listeners s"
  "codeModelUpdateSubs (setActiveFolder E ws s) = codeModelUpdateSubs s"
  "persistedActiveFolder (setActiveFolder E ws s) = persistedActiveFolder s"
  "autoSelectActiveFolder (setActiveFolder E ws s) = autoSelectActiveFolder s"
  by (simp_all add: setActiveFolder_def setupSubscriptions_def folders_setActiveFolder_def
        disposeSubs_def Let_def get_def split: option.splits)

lemma setActiveFolder_valid: "activeFolderValid (setActiveFolder E ws s)"
  by (auto simp: activeFolderValid_iff setActiveFolder_fields dest: get_valid)

lemma onDidChangeActiveTextEditor_valid:
  "activeFolderValid s \<Longrightarrow> activeFolderValid (onDidChangeActiveTextEditor E editor s)"
  by (auto simp: onDidChangeActiveTextEditor_def Let_def setActiveFolder_valid split: option.splits)

lemma selectActiveFolder_valid:
  "activeFolderValid s \<Longrightarrow> activeFolderValid (snd (selectActiveFolder E selection s))"
proof -
  have a: "\<And>t f. activeFolderValid t \<Longrightarrow> activeFolderValid (t\<lparr>persistedActiveFolder := f\<rparr>)"
    by (simp add: activeFolderValid_iff)
  have b: "\<And>t f. activeFolderValid t \<Longrightarrow> activeFolderValid (t\<lparr>postOpen := f\<rparr>)"
    by (simp add: activeFolderValid_iff)
  assume "activeFolderValid s"
  then show ?thesis
    by (auto simp: selectActiveFolder_def Let_def setActiveFolder_valid a b split: option.splits)
qed

lemma subscribeCodeModel_fields:
  "subscribeCodeModel f s = (subs, s') \<Longrightarrow>
   instances s' = instances s \<and> activeFolder s' = activeFolder s"
  by (auto simp: subscribeCodeModel_def subscribe_def Let_def split: prod.splits)

lemma onAfterAddFolder_valid:
  assumes "activeFolderValid s"
  shows "activeFolderValid (onAfterAddFolder E f s)"
proof -
  define s1 where "s1 = (case workspaceFolders s of Some [w] \<Rightarrow> setActiveFolder E (Some w) s | _ \<Rightarrow> s)"
  have v1: "activeFolderValid s1"
    using assms by (auto simp: s1_def setActiveFolder_valid split: option.splits list.splits)
  obtain subs s' where sc: "subscribeCodeModel f (s1\<lparr>outline := outline s1 @ [f]\<rparr>) = (subs, s')"
    by force
  from subscribeCodeModel_fields[OF sc] v1 have "activeFolderValid s'"
    by (simp add: activeFolderValid_iff)
  with v1 sc show ?thesis
    unfolding onAfterAddFolder_def s1_def[symmetric] Let_def
    by (auto simp: activeFolderValid_iff split: option.splits)
qed

lemma folders_add_valid:
  "activeFolderValid s \<Longrightarrow> activeFolderValid (snd (folders_add E f s))"
proof -
  assume v: "activeFolderValid s"
  have "activeFolderValid (s\<lparr>instances := instances s @ [f]\<rparr>)"
    using v by (auto simp: activeFolderValid_iff)
  then show ?thesis
    using v by (simp add: folders_add_def onAfterAddFolder_valid)
qed

lemma onAfterRemoveFolder_valid:
  assumes "\<forall>a. activeFolder s = Some a \<longrightarrow> a = info \<or> a \<in> set (instances s)"
  shows "activeFolderValid (onAfterRemoveFolder E info s)"
proof -
  let ?s1 = "s\<lparr>codeModelUpdateSubs := AList.delete info (codeModelUpdateSubs s)\<rparr>"
  define s2 where "s2 = (case workspaceFolders ?s1 of
                  None \<Rightarrow> setActiveFolder E None ?s1
                | Some [] \<Rightarrow> setActiveFolder E None ?s1
                | Some (w # ws) \<Rightarrow>
                    if activeFolder ?s1 = Some info then setActiveFolder E (Some w) ?s1 else ?s1)"
  have "activeFolderValid s2"
    using assms unfolding s2_def
    by (auto simp: setActiveFolder_valid split: option.splits list.splits)
       (auto simp: activeFolderValid_iff)
  then show ?thesis
    unfolding onAfterRemoveFolder_def s2_def[symmetric] Let_def
    by (simp add: activeFolderValid_iff)
qed

lemma folders_remove_valid:
  assumes "activeFolderValid s"
  shows "activeFolderValid (folders_remove E f s)"
proof (cases "f \<in> set (instances s)")
  case False
  with assms show ?thesis by (simp add: folders_remove_def)
next
  case True
  have "activeFolderValid (onAfterRemoveFolder E f
             (s\<lparr>instances := removeAll f (instances s), world := cmt_asyncDispose E f (world s)\<rparr>))"
    using assms by (intro onAfterRemoveFolder_valid) (auto simp: activeFolderValid_iff)
  with True show ?thesis by (simp add: folders_remove_def)
qed


lemma selectKit_registry:
  "instances (snd (selectKit E folder s)) = instances s \<and>
   activeFolder (snd (selectKit E folder s)) = activeFolder s"
  by (auto simp: selectKit_def Let_def split: option.splits prod.splits)

lemma ensureActiveKit_registry:
  "ensureActiveKit E c s = (b, s1) \<Longrightarrow>
   instances s1 = instances s \<and> activeFolder s1 = activeFolder s"
  by (auto simp: ensureActiveKit_def split: option.splits prod.splits if_splits)
     (metis selectKit_registry snd_conv)+

lemma invoke_registry:
  "invoke fn f s = (r, s') \<Longrightarrow> instances s' = instances s \<and> activeFolder s' = activeFolder s"
  by (auto simp: invoke_def split: prod.splits)

lemma dispatch_one_registry:
  assumes "mapCMakeTools E (OnOne target fn) s = (r, s')"
  shows "instances s' = instances s \<and> activeFolder s' = activeFolder s"
proof -
  have one: "\<And>c. (case ensureActiveKit E (Some c) s of
                 (True, s1) \<Rightarrow> invoke fn c s1
               | (False, s1) \<Rightarrow> (Num (- 1), s1)) = (r, s') \<Longrightarrow> ?thesis"
    by (auto split: prod.splits bool.splits dest!: ensureActiveKit_registry invoke_registry)
  show ?thesis
  proof (cases target)
    case (Some c)
    with assms one[of c] show ?thesis by (simp add: mapCMakeTools_def)
  next
    case None
    show ?thesis
    proof (cases "activeFolder s")
      case (Some af)
      with assms None one[of af] show ?thesis by (simp add: mapCMakeTools_def)
    next
      case n: None
      with assms None show ?thesis by (auto simp: mapCMakeTools_def)
    qed
  qed
qed

lemma mapAllLoop_registry:
  "mapAllLoop E fn fs s = (r, s') \<Longrightarrow>
   instances s' = instances s \<and> activeFolder s' = activeFolder s"
proof (induction fs arbitrary: s)
  case Nil
  then show ?case by simp
next
  case (Cons f fs)
  obtain r1 s1 where d: "mapCMakeTools E (OnOne (Some f) fn) s = (r1, s1)" by force
  note k = dispatch_one_registry[OF d]
  show ?case
  proof (cases "truthy r1")
    case True
    with Cons.prems d k show ?thesis by (simp add: mapAllLoop_step del: mapAllLoop.simps)
  next
    case False
    with Cons.prems d have "mapAllLoop E fn fs s1 = (r, s')"
      by (simp add: mapAllLoop_step del: mapAllLoop.simps)
    from Cons.IH[OF this] k show ?thesis by simp
  qed
qed

lemma mapCMakeTools_registry:
  assumes "mapCMakeTools E args s = (r, s')"
  shows "instances s' = instances s \<and> activeFolder s' = activeFolder s"
proof (cases args)
  case (OnAll fn)
  with assms have "mapAllLoop E fn (instances s) s = (r, s')" by (simp add: mapCMakeTools_def)
  then show ?thesis by (rule mapAllLoop_registry)
next
  case (OnOne target fn)
  with assms show ?thesis by (auto dest: dispatch_one_registry)
qed

lemma step_valid: "activeFolderValid s \<Longrightarrow> activeFolderValid (step E s ev)"
proof (cases ev)
  case (Command args)
  assume v: "activeFolderValid s"
  obtain r s' where d: "mapCMakeTools E args s = (r, s')" by force
  from mapCMakeTools_registry[OF d] v d Command show ?thesis
    by (simp add: activeFolderValid_iff)
next
  case (FolderAdded f wfs)
  assume v: "activeFolderValid s"
  then have "activeFolderValid (s\<lparr>workspaceFolders := wfs\<rparr>)" by (simp add: activeFolderValid_iff)
  with FolderAdded show ?thesis by (simp add: folders_add_valid)
next
  case (FolderRemoved f wfs)
  assume v: "activeFolderValid s"
  then have "activeFolderValid (s\<lparr>workspaceFolders := wfs\<rparr>)" by (simp add: activeFolderValid_iff)
  with FolderRemoved show ?thesis by (simp add: folders_remove_valid)
qed (simp_all add: onDidChangeActiveTextEditor_valid selectActiveFolder_valid
       setActiveFolder_valid, simp add: activeFolderValid_iff)

lemma run_valid: "activeFolderValid s \<Longrightarrow> activeFolderValid (run E s evs)"
  unfolding run_def by (induction evs arbitrary: s) (simp_all add: step_valid)

lemma initLoop_registry:
  "instances (initLoop fs s) = instances s \<and> activeFolder (initLoop fs s) = activeFolder s"
proof (induction fs arbitrary: s)
  case Nil
  show ?case by simp
next
  case (Cons f fs)
  obtain subs s1 where sc: "subscribeCodeModel f s = (subs, s1)" by force
  from subscribeCodeModel_fields[OF sc] sc Cons.IH show ?case by simp
qed

lemma initActiveFolder_valid:
  "activeFolderValid s \<Longrightarrow> activeFolderValid (snd (initActiveFolder E ed s))"
  by (auto simp: initActiveFolder_def Let_def onDidChangeActiveTextEditor_valid
        setActiveFolder_valid split: option.splits list.splits)

lemma create_valid: "activeFolderValid (create E wfs autoSelect persisted ed loaded w)"
proof (cases wfs)
  case None
  then show ?thesis
    by (simp add: create_def init_def newManager_def activeFolderValid_iff)
next
  case (Some l)
  let ?s3 = "(folders_loadAllCurrent loaded (newManager wfs autoSelect persisted w))
              \<lparr>outline := outline (folders_loadAllCurrent loaded (newManager wfs autoSelect persisted w)) @ l,
                editorSub := True\<rparr>"
  have "activeFolderValid ?s3"
    by (simp add: activeFolderValid_iff folders_loadAllCurrent_def newManager_def)
  from initActiveFolder_valid[OF this, of E ed]
  have v: "activeFolderValid (snd (initActiveFolder E ed ?s3))" .
  have "activeFolderValid (snd (init E ed loaded (newManager wfs autoSelect persisted w)))"
  proof -
    have w: "workspaceFolders (newManager wfs autoSelect persisted w) = Some l"
      using Some by (simp add: newManager_def)
    show ?thesis
      using v unfolding init_def w Let_def
      by (auto simp: activeFolderValid_iff initLoop_registry split: prod.splits option.splits)
  qed
  then show ?thesis by (simp add: create_def)
qed

text \<open>
  Claim C6. From the creation of the manager on, after every sequence of folders added
  and removed, editor focus changes, explicit selections, direct reassignments of the
  active folder, configuration changes and dispatched commands, the active folder is
  empty or a key of the registry.
\<close>

theorem active_folder_never_dangles:
  "activeFolderValid (run E (create E wfs autoSelect persisted editor loaded w) evs)"
  by (rule run_valid[OF create_valid])

text \<open>
  The scenario of the spec: of three folders the third is removed, the user selects the
  second, and the second is removed: the first one is active again.
\<close>

theorem active_folder_never_dangles_witness:
  "activeFolderValid
     (run demoEnv createdManager
        [FolderRemoved ''/ws/s3'' (Some [''/ws/s1'', ''/ws/s2'']),
         SelectActiveFolder (Some ''/ws/s2''),
         FolderRemoved ''/ws/s2'' (Some [''/ws/s1''])]) \<and>
   activeFolder
     (run demoEnv createdManager
        [FolderRemoved ''/ws/s3'' (Some [''/ws/s1'', ''/ws/s2'']),
         SelectActiveFolder (Some ''/ws/s2'')]) = Some ''/ws/s2'' \<and>
   activeFolder
     (run demoEnv createdManager
        [FolderRemoved ''/ws/s3'' (Some [''/ws/s1'', ''/ws/s2'']),
         SelectActiveFolder (Some ''/ws/s2''),
         FolderRemoved ''/ws/s2'' (Some [''/ws/s1''])]) = Some ''/ws/s1''"
proof -
  have a: "activeFolder
     (run demoEnv createdManager
        [FolderRemoved ''/ws/s3'' (Some [''/ws/s1'', ''/ws/s2'']),
         SelectActiveFolder (Some ''/ws/s2'')]) = Some ''/ws/s2''"
    by (simp add: arbiter_defs demo_defs createdManager_def)
  have b: "activeFolder
     (run demoEnv createdManager
        [FolderRemoved ''/ws/s3'' (Some [''/ws/s1'', ''/ws/s2'']),
         SelectActiveFolder (Some ''/ws/s2''),
         FolderRemoved ''/ws/s2'' (Some [''/ws/s1''])]) = Some ''/ws/s1''"
    by (simp add: arbiter_defs demo_defs createdManager_def)
  from active_folder_never_dangles
         [of demoEnv "Some [''/ws/s1'', ''/ws/s2'', ''/ws/s3'']" False None None
             "[''/ws/s1'', ''/ws/s2'', ''/ws/s3'']" demoWorld
             "[FolderRemoved ''/ws/s3'' (Some [''/ws/s1'', ''/ws/s2'']),
               SelectActiveFolder (Some ''/ws/s2''),
               FolderRemoved ''/ws/s2'' (Some [''/ws/s1''])]"]
  have "activeFolderValid
     (run demoEnv createdManager
        [FolderRemoved ''/ws/s3'' (Some [''/ws/s1'', ''/ws/s2'']),
         SelectActiveFolder (Some ''/ws/s2''),
         FolderRemoved ''/ws/s2'' (Some [''/ws/s1''])])"
    by (simp only: createdManager_def)
  with a b show ?thesis by simp
qed

subsection \<open>Explicit selection of the active folder\<close>

text \<open>
  Claim C7 says that an explicit selection reassigns the active folder and persists it
  even when the auto-select policy is enabled. With the policy enabled and three folders
  open, the user picks the second one: the active folder is not the second one and
  nothing is persisted.
\<close>

theorem selectActiveFolder_autoselect_counterexample:
  "autoSelectActiveFolder autoSelectManager \<and>
   ''/ws/s2'' \<in> set (instances autoSelectManager) \<and>
   \<not> (activeFolder (snd (selectActiveFolder demoEnv (Some ''/ws/s2'') autoSelectManager))
          = Some ''/ws/s2'' \<and>
       persistedActiveFolder (snd (selectActiveFolder demoEnv (Some ''/ws/s2'') autoSelectManager))
          = Some ''/ws/s2'')"
  by (simp add: selectActiveFolder_def demo_defs demoManager_def autoSelectManager_def)

text \<open>
  Claim C7, amended. While the auto-select policy is enabled, \<^verbatim>\<open>selectActiveFolder\<close> does
  nothing, whatever the user would pick. While it is disabled and the workspace has a
  folder, the selection of a folder of the registry makes it the active folder and
  persists its key, without an error.
\<close>

theorem selectActiveFolder_policy:
  "(autoSelectActiveFolder s \<longrightarrow> selectActiveFolder E selection s = (None, s)) \<and>
   (\<not> autoSelectActiveFolder s \<and> workspaceFolders s = Some wfs \<and> wfs \<noteq> [] \<and>
    sel \<in> set (instances s) \<longrightarrow>
      fst (selectActiveFolder E (Some sel) s) = None \<and>
      activeFolder (snd (selectActiveFolder E (Some sel) s)) = Some sel \<and>
      persistedActiveFolder (snd (selectActiveFolder E (Some sel) s)) = Some sel)"
proof (intro conjI impI)
  assume "autoSelectActiveFolder s"
  then show "selectActiveFolder E selection s = (None, s)"
    by (simp add: selectActiveFolder_def)
next
  assume h: "\<not> autoSelectActiveFolder s \<and> workspaceFolders s = Some wfs \<and> wfs \<noteq> [] \<and>
    sel \<in> set (instances s)"
  then have a: "activeFolder (setActiveFolder E (Some sel) s) = Some sel"
    by (simp add: setActiveFolder_fields get_def)
  from h a show "fst (selectActiveFolder E (Some sel) s) = None"
    by (simp add: selectActiveFolder_def Let_def)
  from h a show "activeFolder (snd (selectActiveFolder E (Some sel) s)) = Some sel"
    by (simp add: selectActiveFolder_def Let_def)
  from h a show "persistedActiveFolder (snd (selectActiveFolder E (Some sel) s)) = Some sel"
    by (simp add: selectActiveFolder_def Let_def)
qed

text \<open>Both halves on three open folders, the user picking the second one.\<close>

theorem selectActiveFolder_policy_witness:
  "selectActiveFolder demoEnv (Some ''/ws/s2'') autoSelectManager = (None, autoSelectManager) \<and>
   fst (selectActiveFolder demoEnv (Some ''/ws/s2'') demoManager) = None \<and>
   activeFolder (snd (selectActiveFolder demoEnv (Some ''/ws/s2'') demoManager)) = Some ''/ws/s2'' \<and>
   persistedActiveFolder (snd (selectActiveFolder demoEnv (Some ''/ws/s2'') demoManager))
     = Some ''/ws/s2''"
proof -
  have on: "autoSelectActiveFolder autoSelectManager"
    by (simp add: demo_defs demoManager_def autoSelectManager_def)
  have off: "\<not> autoSelectActiveFolder demoManager \<and>
             workspaceFolders demoManager = Some [''/ws/s1'', ''/ws/s2'', ''/ws/s3''] \<and>
             [''/ws/s1'', ''/ws/s2'', ''/ws/s3''] \<noteq> ([] :: folder list) \<and>
             ''/ws/s2'' \<in> set (instances demoManager)"
    by (simp add: demo_defs demoManager_def)
  from selectActiveFolder_policy[of autoSelectManager demoEnv "Some ''/ws/s2''"] on
       selectActiveFolder_policy[of demoManager demoEnv None "[''/ws/s1'', ''/ws/s2'', ''/ws/s3'']" "''/ws/s2''"] off
  show ?thesis by blast
qed

subsection \<open>Editor focus\<close>

lemma onDidChangeActiveTextEditor_reassigns:
  "workspaceFolders s = Some wfs \<Longrightarrow> getWorkspaceFolder E wfs uri = Some f \<Longrightarrow>
   f \<in> set (instances s) \<Longrightarrow>
   activeFolder (onDidChangeActiveTextEditor E (Some uri) s) = Some f"
  by (auto simp: onDidChangeActiveTextEditor_def setActiveFolder_fields get_def)

lemma setActiveFolder_policy:
  "setActiveFolder E ws (s\<lparr>autoSelectActiveFolder := b\<rparr>)
     = (setActiveFolder E ws s)\<lparr>autoSelectActiveFolder := b\<rparr>"
  by (simp add: setActiveFolder_def setupSubscriptions_def folders_setActiveFolder_def
        disposeSubs_def Let_def get_def split: option.splits)

text \<open>The handler does the same whatever the auto-select policy is.\<close>

lemma onDidChangeActiveTextEditor_ignores_policy:
  "onDidChangeActiveTextEditor E editor (s\<lparr>autoSelectActiveFolder := b\<rparr>)
     = (onDidChangeActiveTextEditor E editor s)\<lparr>autoSelectActiveFolder := b\<rparr>"
  by (simp add: onDidChangeActiveTextEditor_def setActiveFolder_policy Let_def split: option.splits)

text \<open>
  Claim C8 says that with the auto-select policy disabled, a focus change to a document of
  another open folder does not reassign the active folder. The manager is created with
  the policy disabled on three folders, the first one active; the editor subscription is
  there; the focus moves to a document of the second folder, and the second folder is
  active.
\<close>

theorem editor_focus_reassigns_with_policy_disabled:
  "\<not> autoSelectActiveFolder createdManager \<and> editorSub createdManager \<and>
   activeFolder createdManager = Some ''/ws/s1'' \<and>
   activeFolder (step demoEnv createdManager (EditorFocus (Some ''/ws/s2/main.cpp'')))
     = Some ''/ws/s2''"
  by (simp add: arbiter_defs demo_defs createdManager_def)

section \<open>Properties of the code-model subscriptions\<close>

lemma folders_remove_listeners: "listeners (folders_remove E f s) = listeners s"
  by (simp add: folders_remove_def onAfterRemoveFolder_def Let_def setActiveFolder_fields
        split: option.splits list.splits)

lemma folders_add_listeners:
  "f \<notin> set (instances s) \<Longrightarrow> map_of (codeModelUpdateSubs s) f = None \<Longrightarrow>
   listeners (snd (folders_add E f s)) =
     listeners s @ [\<lparr>sub_id = nextSub s, sub_folder = f, sub_event = CodeModelChanged\<rparr>,
                    \<lparr>sub_id = Suc (nextSub s), sub_folder = f, sub_event = TargetNameChanged\<rparr>,
                    \<lparr>sub_id = Suc (Suc (nextSub s)), sub_folder = f,
                      sub_event = LaunchTargetNameChanged\<rparr>]"
  by (simp add: folders_add_def onAfterAddFolder_def Let_def setActiveFolder_fields
        subscribeCodeModel_def subscribe_def
        setActiveFolder_def setupSubscriptions_def folders_setActiveFolder_def disposeSubs_def
        split: option.splits list.splits)

text \<open>
  Claim C9 says that the subscription to the code-model notification of a session is
  disposed of when the folder is removed. A folder is added: its three subscriptions
  exist, and the disposal of the manager at that point would dispose of them. The folder
  is removed: the registry and the map of subscriptions are empty, the three
  subscriptions are still undisposed, and the disposal of the manager no longer reaches
  them.
\<close>

theorem removed_folder_subscriptions_not_disposed:
  "listeners addedManager =
     [\<lparr>sub_id = 0, sub_folder = ''/ws/a'', sub_event = CodeModelChanged\<rparr>,
      \<lparr>sub_id = 1, sub_folder = ''/ws/a'', sub_event = TargetNameChanged\<rparr>,
      \<lparr>sub_id = 2, sub_folder = ''/ws/a'', sub_event = LaunchTargetNameChanged\<rparr>] \<and>
   listeners (asyncDispose demoEnv addedManager) = [] \<and>
   instances removedManager = [] \<and>
   codeModelUpdateSubs removedManager = [] \<and>
   listeners removedManager = listeners addedManager \<and>
   listeners (asyncDispose demoEnv removedManager) = listeners addedManager"
  by (simp add: arbiter_defs demo_defs emptyManager_def addedManager_def removedManager_def
        asyncDispose_def disposeCodeModelSubs_def dispose_sub_def)

section \<open>Properties of the debug and launch fan-out\<close>

lemma debugTargetAllLoop_eq:
  "debugTargetAllLoop E name fs acc s =
     (acc @ concat (map (\<lambda>r. [r, Null]) (fst (folderResults E (cmt_op E (DebugTarget name)) fs s))),
      snd (folderResults E (cmt_op E (DebugTarget name)) fs s))"
  by (induction fs arbitrary: acc s) (auto split: prod.splits)

lemma launchTargetAllLoop_eq:
  "launchTargetAllLoop E name fs acc s =
     (acc @ concat (map (\<lambda>r. [r, Null]) (fst (folderResults E (cmt_op E (LaunchTarget name)) fs s))),
      snd (folderResults E (cmt_op E (LaunchTarget name)) fs s))"
  by (induction fs arbitrary: acc s) (auto split: prod.splits)

lemma folderResults_length_aux: "folderResults E fn fs s = (rs, s') \<Longrightarrow> length rs = length fs"
  by (induction fs arbitrary: s rs s') (auto split: prod.splits)

lemma folderResults_length: "length (fst (folderResults E fn fs s)) = length fs"
  using folderResults_length_aux[of E fn fs s] by (cases "folderResults E fn fs s") simp

lemma pad_length: "length (concat (map (\<lambda>r. [r, Null]) rs)) = 2 * length rs"
  by (induction rs) auto

lemma pad_nth:
  "i < length rs \<Longrightarrow> concat (map (\<lambda>r. [r, Null]) rs) ! (2 * i) = rs ! i \<and>
                       concat (map (\<lambda>r. [r, Null]) rs) ! Suc (2 * i) = Null"
proof (induction rs arbitrary: i)
  case Nil
  then show ?case by simp
next
  case (Cons r rs)
  show ?case
  proof (cases i)
    case 0
    then show ?thesis by simp
  next
    case (Suc j)
    with Cons.prems have "j < length rs" by simp
    from Cons.IH[OF this] Suc show ?thesis by simp
  qed
qed

lemma debugTargetAll_demo:
  "fst (debugTargetAll demoEnv None demoManager) = [Obj 1, Null, Obj 1, Null, Obj 1, Null]"
  by (simp add: debugTargetAll_def demo_defs demoManager_def dispatch_defs)

text \<open>
  Claim C10. For a registry of \<open>n\<close> folders, \<^verbatim>\<open>debugTargetAll\<close> and \<^verbatim>\<open>launchTargetAll\<close>
  return \<open>2n\<close> entries: entry \<open>2i\<close> is the result of the dispatch to the folder at
  position \<open>i\<close> of the registry, and entry \<open>2i + 1\<close>, pushed in the same round of the loop,
  is \<^verbatim>\<open>null\<close>.
\<close>

theorem targetAll_null_after_each_folder:
  "length (fst (debugTargetAll E name s)) = 2 * length (instances s) \<and>
   length (fst (launchTargetAll E name s)) = 2 * length (instances s) \<and>
   (\<forall>i < length (instances s).
      fst (debugTargetAll E name s) ! (2 * i)
        = fst (folderResults E (cmt_op E (DebugTarget name)) (instances s) s) ! i \<and>
      fst (debugTargetAll E name s) ! (2 * i + 1) = Null \<and>
      fst (launchTargetAll E name s) ! (2 * i)
        = fst (folderResults E (cmt_op E (LaunchTarget name)) (instances s) s) ! i \<and>
      fst (launchTargetAll E name s) ! (2 * i + 1) = Null)"
  by (simp add: debugTargetAll_def launchTargetAll_def debugTargetAllLoop_eq
        launchTargetAllLoop_eq pad_length pad_nth folderResults_length)

text \<open>Three folders: six entries, a \<^verbatim>\<open>null\<close> at each odd position.\<close>

theorem targetAll_null_after_each_folder_witness:
  "instances demoManager = [''/ws/s1'', ''/ws/s2'', ''/ws/s3''] \<and>
   length (fst (debugTargetAll demoEnv None demoManager)) = 6 \<and>
   fst (debugTargetAll demoEnv None demoManager) ! 1 = Null \<and>
   fst (debugTargetAll demoEnv None demoManager) ! 3 = Null \<and>
   fst (debugTargetAll demoEnv None demoManager) ! 5 = Null \<and>
   fst (launchTargetAll demoEnv None demoManager) ! 5 = Null"
proof -
  have inst: "instances demoManager = [''/ws/s1'', ''/ws/s2'', ''/ws/s3'']"
    by (simp add: demo_defs demoManager_def)
  note t = targetAll_null_after_each_folder[of demoEnv None demoManager]
  from t inst have len: "length (fst (debugTargetAll demoEnv None demoManager)) = 6" by simp
  from t inst have a: "\<forall>i<3. fst (debugTargetAll demoEnv None demoManager) ! (2 * i + 1) = Null \<and>
                          fst (launchTargetAll demoEnv None demoManager) ! (2 * i + 1) = Null"
    by simp
  from a[rule_format, of 0] a[rule_format, of 1] a[rule_format, of 2] len inst
  show ?thesis by simp
qed

end
